theory Spec2Isabelle
  imports Complex_Main
begin

section \<open>Numeric values\<close>

text \<open>
  The indicator functions compute on float64 columns of a pandas data frame.  A float64
  is modelled as a real number or one of the three special values; arithmetic on real
  numbers is exact (rounding is not modelled), and the special values follow IEEE 754:
  a nonzero number divided by zero is an infinity, zero divided by zero is NaN, NaN
  propagates, and every ordered comparison with NaN is false.  Zero carries no sign: a
  zero divisor counts as positive zero.

  Since rounding, overflow and underflow are left out, the theorems below are stated only
  where float64 agrees with the model: for comparisons, maxima and minima, which are
  exact; for inputs of small whole numbers, on which the sums, differences and products
  involved are exact in any order of evaluation; and for bounds that correct rounding
  preserves.
\<close>

datatype fval = Fin real | PInf | NInf | NaN

datatype py_error = IndexError

fun fneg :: "fval \<Rightarrow> fval" where
  "fneg (Fin a) = Fin (- a)"
| "fneg PInf = NInf"
| "fneg NInf = PInf"
| "fneg NaN = NaN"

fun fadd :: "fval \<Rightarrow> fval \<Rightarrow> fval" where
  "fadd (Fin a) (Fin b) = Fin (a + b)"
| "fadd NaN _ = NaN"
| "fadd _ NaN = NaN"
| "fadd PInf NInf = NaN"
| "fadd NInf PInf = NaN"
| "fadd PInf _ = PInf"
| "fadd _ PInf = PInf"
| "fadd NInf _ = NInf"
| "fadd _ NInf = NInf"

definition fsub :: "fval \<Rightarrow> fval \<Rightarrow> fval" where
  "fsub a b = fadd a (fneg b)"

fun fmul :: "fval \<Rightarrow> fval \<Rightarrow> fval" where
  "fmul (Fin a) (Fin b) = Fin (a * b)"
| "fmul NaN _ = NaN"
| "fmul _ NaN = NaN"
| "fmul (Fin a) PInf = (if a = 0 then NaN else if 0 < a then PInf else NInf)"
| "fmul (Fin a) NInf = (if a = 0 then NaN else if 0 < a then NInf else PInf)"
| "fmul PInf (Fin b) = (if b = 0 then NaN else if 0 < b then PInf else NInf)"
| "fmul NInf (Fin b) = (if b = 0 then NaN else if 0 < b then NInf else PInf)"
| "fmul PInf PInf = PInf"
| "fmul NInf NInf = PInf"
| "fmul PInf NInf = NInf"
| "fmul NInf PInf = NInf"

fun fdiv :: "fval \<Rightarrow> fval \<Rightarrow> fval" where
  "fdiv (Fin a) (Fin b) =
     (if b \<noteq> 0 then Fin (a / b)
      else if a = 0 then NaN else if 0 < a then PInf else NInf)"
| "fdiv NaN _ = NaN"
| "fdiv _ NaN = NaN"
| "fdiv (Fin a) PInf = Fin 0"
| "fdiv (Fin a) NInf = Fin 0"
| "fdiv PInf (Fin b) = (if 0 \<le> b then PInf else NInf)"
| "fdiv NInf (Fin b) = (if 0 \<le> b then NInf else PInf)"
| "fdiv PInf PInf = NaN"
| "fdiv PInf NInf = NaN"
| "fdiv NInf PInf = NaN"
| "fdiv NInf NInf = NaN"

text \<open>\<open>a > b\<close>, \<open>a < b\<close> and \<open>a != b\<close> on float64.\<close>

fun fgt :: "fval \<Rightarrow> fval \<Rightarrow> bool" where
  "fgt (Fin a) (Fin b) = (b < a)"
| "fgt NaN _ = False"
| "fgt _ NaN = False"
| "fgt PInf PInf = False"
| "fgt PInf _ = True"
| "fgt NInf _ = False"
| "fgt (Fin a) NInf = True"
| "fgt (Fin a) PInf = False"

definition flt :: "fval \<Rightarrow> fval \<Rightarrow> bool" where
  "flt a b = fgt b a"

definition fne :: "fval \<Rightarrow> fval \<Rightarrow> bool" where
  "fne a b = (a = NaN \<or> b = NaN \<or> a \<noteq> b)"

definition isna :: "fval \<Rightarrow> bool" where
  "isna a = (a = NaN)"

section \<open>Series and columns\<close>

text \<open>
  One row of the data frame that \<open>fetch_historical_data\<close> builds.  The fetched columns
  are finite numbers; only derived columns hold NaN or an infinity.
\<close>

record bar =
  high :: real
  low :: real
  close :: real
  volume :: real
  taker_buy_quote :: real

type_synonym series = "bar list"

definition col :: "(bar \<Rightarrow> real) \<Rightarrow> series \<Rightarrow> fval list" where
  "col f df = map (\<lambda>b. Fin (f b)) df"

text \<open>\<open>s.iloc[k]\<close>: a negative position counts from the end, a position out of range raises.\<close>

definition iloc :: "'a list \<Rightarrow> int \<Rightarrow> py_error + 'a" where
  "iloc xs k =
     (let n = int (length xs); j = (if k < 0 then n + k else k)
      in if 0 \<le> j \<and> j < n then Inr (xs ! nat j) else Inl IndexError)"

definition ebind :: "'e + 'a \<Rightarrow> ('a \<Rightarrow> 'e + 'b) \<Rightarrow> 'e + 'b" where
  "ebind m f = (case m of Inl e \<Rightarrow> Inl e | Inr x \<Rightarrow> f x)"

section \<open>Window statistics\<close>

text \<open>
  \<open>s.rolling(window=w)\<close> with the default \<open>min_periods = w\<close>: position \<open>i\<close> holds the
  aggregate of the \<open>w\<close> values ending at \<open>i\<close> when the window is full and holds no NaN,
  and NaN otherwise.
\<close>

definition window :: "nat \<Rightarrow> 'a list \<Rightarrow> nat \<Rightarrow> 'a list" where
  "window w xs i = take w (drop (i + 1 - w) xs)"

definition rolling :: "(fval list \<Rightarrow> fval) \<Rightarrow> nat \<Rightarrow> fval list \<Rightarrow> fval list" where
  "rolling agg w xs =
     map (\<lambda>i. if 0 < w \<and> w \<le> i + 1 \<and> NaN \<notin> set (window w xs i)
              then agg (window w xs i) else NaN)
         [0..<length xs]"

definition fsum :: "fval list \<Rightarrow> fval" where
  "fsum xs = foldl fadd (Fin 0) xs"

definition agg_mean :: "fval list \<Rightarrow> fval" where
  "agg_mean xs = fdiv (fsum xs) (Fin (real (length xs)))"

definition fmax :: "fval \<Rightarrow> fval \<Rightarrow> fval" where
  "fmax a b = (if fgt b a then b else a)"

definition fmin :: "fval \<Rightarrow> fval \<Rightarrow> fval" where
  "fmin a b = (if flt b a then b else a)"

definition agg_max :: "fval list \<Rightarrow> fval" where
  "agg_max xs = (case xs of [] \<Rightarrow> NaN | x # ys \<Rightarrow> foldl fmax x ys)"

definition agg_min :: "fval list \<Rightarrow> fval" where
  "agg_min xs = (case xs of [] \<Rightarrow> NaN | x # ys \<Rightarrow> foldl fmin x ys)"

definition map2f :: "(fval \<Rightarrow> fval \<Rightarrow> fval) \<Rightarrow> fval list \<Rightarrow> fval list \<Rightarrow> fval list" where
  "map2f f xs ys = map (\<lambda>(x, y). f x y) (zip xs ys)"

text \<open>\<open>s.diff()\<close>: position 0 has no predecessor and holds NaN.\<close>

definition series_diff :: "fval list \<Rightarrow> fval list" where
  "series_diff xs =
     map (\<lambda>i. if i = 0 then NaN else fsub (xs ! i) (xs ! (i - 1))) [0..<length xs]"

definition dropna :: "fval list \<Rightarrow> fval list" where
  "dropna xs = filter (\<lambda>x. \<not> isna x) xs"

text \<open>\<open>s.sum()\<close> and \<open>s.mean()\<close> skip NaN.\<close>

definition series_sum :: "fval list \<Rightarrow> fval" where
  "series_sum xs = fsum (dropna xs)"

definition series_mean :: "fval list \<Rightarrow> fval" where
  "series_mean xs = agg_mean (dropna xs)"

text \<open>\<open>s.cumsum()\<close>: a left-to-right scan; a NaN entry stays NaN and is left out of the
  running sum.\<close>

fun cumsum_from :: "fval \<Rightarrow> fval list \<Rightarrow> fval list" where
  "cumsum_from acc [] = []"
| "cumsum_from acc (x # xs) =
     (if isna x then NaN # cumsum_from acc xs
      else fadd acc x # cumsum_from (fadd acc x) xs)"

definition cumsum :: "fval list \<Rightarrow> fval list" where
  "cumsum xs = cumsum_from (Fin 0) xs"

text \<open>\<open>s.ewm(span=n, adjust=False).mean()\<close>: \<open>y\<^sub>0 = x\<^sub>0\<close> and
  \<open>y\<^sub>t = (1 - \<alpha>) y\<^sub>t\<^sub>-\<^sub>1 + \<alpha> x\<^sub>t\<close> with \<open>\<alpha> = 2 / (n + 1)\<close>.\<close>

fun ewm_from :: "real \<Rightarrow> fval \<Rightarrow> fval list \<Rightarrow> fval list" where
  "ewm_from \<alpha> y [] = []"
| "ewm_from \<alpha> y (x # xs) =
     (let y' = fadd (fmul (Fin (1 - \<alpha>)) y) (fmul (Fin \<alpha>) x) in y' # ewm_from \<alpha> y' xs)"

definition ewm_mean :: "nat \<Rightarrow> fval list \<Rightarrow> fval list" where
  "ewm_mean n xs =
     (case xs of [] \<Rightarrow> [] | x # ys \<Rightarrow> x # ewm_from (2 / (real n + 1)) x ys)"

section \<open>Technical indicators\<close>

text \<open>
  \<^verbatim>\<open>
  def calculate_channel_breakout(df):
      high_20 = df["high"].rolling(window=20).max().iloc[-1]
      low_20 = df["low"].rolling(window=20).min().iloc[-1]
      current_price = df["close"].iloc[-1]
      return 1 if current_price > high_20 else -1 if current_price < low_20 else 0
  \<close>
\<close>

definition calculate_channel_breakout :: "series \<Rightarrow> py_error + int" where
  "calculate_channel_breakout df =
     ebind (iloc (rolling agg_max 20 (col high df)) (-1)) (\<lambda>high_20.
     ebind (iloc (rolling agg_min 20 (col low df)) (-1)) (\<lambda>low_20.
     ebind (iloc (col close df) (-1)) (\<lambda>current_price.
       Inr (if fgt current_price high_20 then 1
            else if flt current_price low_20 then -1 else 0))))"

text \<open>
  \<^verbatim>\<open>
  def calculate_sma_50(df):
      return df["close"].rolling(window=50).mean().iloc[-1]

  def calculate_ema_20(df):
      return df["close"].ewm(span=20, adjust=False).mean().iloc[-1]
  \<close>
\<close>

definition calculate_sma_50 :: "series \<Rightarrow> py_error + fval" where
  "calculate_sma_50 df = iloc (rolling agg_mean 50 (col close df)) (-1)"

definition calculate_ema_20 :: "series \<Rightarrow> py_error + fval" where
  "calculate_ema_20 df = iloc (ewm_mean 20 (col close df)) (-1)"

text \<open>
  \<^verbatim>\<open>
  def calculate_rsi(df, period=14):
      delta = df["close"].diff()
      gain = (delta.where(delta > 0, 0)).rolling(window=period).mean()
      loss = (-delta.where(delta < 0, 0)).rolling(window=period).mean()
      rs = gain / loss
      rsi = 100 - (100 / (1 + rs))
      return rsi.iloc[-1] if not rsi.isna().all() else np.nan
  \<close>
  \<open>delta.where(c, 0)\<close> keeps the entries where \<open>c\<close> holds and puts 0 elsewhere, so the
  NaN at position 0 becomes 0.
\<close>

definition rsi_series :: "series \<Rightarrow> nat \<Rightarrow> fval list" where
  "rsi_series df period =
     (let delta = series_diff (col close df);
          gain = rolling agg_mean period (map (\<lambda>d. if fgt d (Fin 0) then d else Fin 0) delta);
          loss = rolling agg_mean period
                   (map fneg (map (\<lambda>d. if flt d (Fin 0) then d else Fin 0) delta));
          rs = map2f fdiv gain loss
      in map (\<lambda>r. fsub (Fin 100) (fdiv (Fin 100) (fadd (Fin 1) r))) rs)"

definition calculate_rsi :: "series \<Rightarrow> nat \<Rightarrow> py_error + fval" where
  "calculate_rsi df period =
     (let rsi = rsi_series df period
      in if \<not> list_all isna rsi then iloc rsi (-1) else Inr NaN)"


text \<open>
  \<^verbatim>\<open>
  def calculate_vwap(df):
      typical_price = (df["high"] + df["low"] + df["close"]) / 3
      vwap = (typical_price * df["volume"]).cumsum() / df["volume"].cumsum()
      return vwap.iloc[-1]
  \<close>
\<close>

definition calculate_vwap :: "series \<Rightarrow> py_error + fval" where
  "calculate_vwap df =
     (let typical_price =
            map (\<lambda>s. fdiv s (Fin 3))
                (map2f fadd (map2f fadd (col high df) (col low df)) (col close df));
          vwap = map2f fdiv (cumsum (map2f fmul typical_price (col volume df)))
                            (cumsum (col volume df))
      in iloc vwap (-1))"

text \<open>
  \<^verbatim>\<open>
  def calculate_roc(df, period=14):
      return ((df["close"].iloc[-1] - df["close"].iloc[-period])
              / df["close"].iloc[-period]) * 100
  \<close>
\<close>

definition calculate_roc :: "series \<Rightarrow> int \<Rightarrow> py_error + fval" where
  "calculate_roc df period =
     ebind (iloc (col close df) (-1)) (\<lambda>cur.
     ebind (iloc (col close df) (- period)) (\<lambda>prev.
       Inr (fmul (fdiv (fsub cur prev) prev) (Fin 100))))"

text \<open>
  \<^verbatim>\<open>
  def calculate_stochastic_k(df, period=14):
      lowest_low = df["low"].rolling(window=period).min()
      highest_high = df["high"].rolling(window=period).max()
      k = 100 * (df["close"] - lowest_low) / (highest_high - lowest_low)
      return k.iloc[-1]

  def calculate_williams_r(df, period=14):
      highest_high = df["high"].rolling(window=period).max()
      lowest_low = df["low"].rolling(window=period).min()
      r = -100 * (highest_high - df["close"]) / (highest_high - lowest_low)
      return r.iloc[-1]
  \<close>
\<close>

definition calculate_stochastic_k :: "series \<Rightarrow> nat \<Rightarrow> py_error + fval" where
  "calculate_stochastic_k df period =
     (let lowest_low = rolling agg_min period (col low df);
          highest_high = rolling agg_max period (col high df);
          k = map2f fdiv (map (fmul (Fin 100)) (map2f fsub (col close df) lowest_low))
                         (map2f fsub highest_high lowest_low)
      in iloc k (-1))"

definition calculate_williams_r :: "series \<Rightarrow> nat \<Rightarrow> py_error + fval" where
  "calculate_williams_r df period =
     (let highest_high = rolling agg_max period (col high df);
          lowest_low = rolling agg_min period (col low df);
          r = map2f fdiv (map (fmul (Fin (- 100))) (map2f fsub highest_high (col close df)))
                         (map2f fsub highest_high lowest_low)
      in iloc r (-1))"

section \<open>Peer metrics\<close>

text \<open>
  \<^verbatim>\<open>
  def calculate_nvt_ratio(df, supply):
      market_caps = df["close"] * supply
      volumes = df["volume"] * df["close"]
      return (market_caps / volumes).mean()

  def calculate_mayer_multiple(df):
      ma_200 = df["close"].rolling(window=200).mean().iloc[-1]
      current_price = df["close"].iloc[-1]
      return current_price / ma_200 if ma_200 != 0 else np.inf
  \<close>
\<close>

definition calculate_nvt_ratio :: "series \<Rightarrow> real \<Rightarrow> fval" where
  "calculate_nvt_ratio df supply =
     (let market_caps = map (\<lambda>c. fmul c (Fin supply)) (col close df);
          volumes = map2f fmul (col volume df) (col close df)
      in series_mean (map2f fdiv market_caps volumes))"

definition calculate_mayer_multiple :: "series \<Rightarrow> py_error + fval" where
  "calculate_mayer_multiple df =
     ebind (iloc (rolling agg_mean 200 (col close df)) (-1)) (\<lambda>ma_200.
     ebind (iloc (col close df) (-1)) (\<lambda>current_price.
       Inr (if fne ma_200 (Fin 0) then fdiv current_price ma_200 else PInf)))"

section \<open>Quantitative metrics\<close>

text \<open>
  \<^verbatim>\<open>
  def calculate_volume_composition(df):
      buy_volume = df["taker_buy_quote"].astype(float).sum()
      total_volume = (df["volume"] * df["close"]).sum()
      sell_volume = total_volume - buy_volume
      return {"buy_volume": buy_volume / total_volume,
              "sell_volume": sell_volume / total_volume} \
          if total_volume != 0 else {"buy_volume": 0, "sell_volume": 0}
  \<close>
\<close>

record composition =
  buy_volume :: fval
  sell_volume :: fval

definition calculate_volume_composition :: "series \<Rightarrow> composition" where
  "calculate_volume_composition df =
     (let buy = series_sum (col taker_buy_quote df);
          total_volume = series_sum (map2f fmul (col volume df) (col close df));
          sell = fsub total_volume buy
      in if fne total_volume (Fin 0)
         then \<lparr>buy_volume = fdiv buy total_volume, sell_volume = fdiv sell total_volume\<rparr>
         else \<lparr>buy_volume = Fin 0, sell_volume = Fin 0\<rparr>)"

section \<open>Formulas as the specification words them\<close>


text \<open>Rate of change as the specification words it:
  \<open>(close\<^sub>t - close\<^sub>t\<^sub>-\<^sub>p) / close\<^sub>t\<^sub>-\<^sub>p \<times> 100\<close> at the last index \<open>t\<close>, which requires more than
  \<open>p\<close> bars and is an index error otherwise.\<close>

definition roc_as_specified :: "series \<Rightarrow> nat \<Rightarrow> py_error + fval" where
  "roc_as_specified df p =
     (if p < length df
      then (let cur = Fin (close (df ! (length df - 1)));
                prev = Fin (close (df ! (length df - 1 - p)))
            in Inr (fmul (fdiv (fsub cur prev) prev) (Fin 100)))
      else Inl IndexError)"

text \<open>A result in the closed interval from \<open>lo\<close> to \<open>hi\<close>: a returned number, neither
  NaN nor an infinity, that lies between the two bounds.\<close>

fun result_between :: "real \<Rightarrow> real \<Rightarrow> py_error + fval \<Rightarrow> bool" where
  "result_between lo hi (Inr (Fin r)) = (lo \<le> r \<and> r \<le> hi)"
| "result_between lo hi _ = False"

section \<open>Test series\<close>

definition flat_bar :: "real \<Rightarrow> real \<Rightarrow> bar" where
  "flat_bar c v = \<lparr>high = c, low = c, close = c, volume = v, taker_buy_quote = 0\<rparr>"

definition bar_of :: "real \<Rightarrow> real \<Rightarrow> real \<Rightarrow> real \<Rightarrow> bar" where
  "bar_of h l c v = \<lparr>high = h, low = l, close = c, volume = v, taker_buy_quote = 0\<rparr>"

section \<open>Basic facts about columns, positions and windows\<close>

lemma iloc_last: "xs \<noteq> [] \<Longrightarrow> iloc xs (-1) = Inr (last xs)"
  by (cases xs rule: rev_cases) (simp_all add: iloc_def Let_def nth_append)

lemma iloc_Nil: "iloc [] k = Inl IndexError"
  by (simp add: iloc_def)

lemma length_rolling: "length (rolling agg w xs) = length xs"
  by (simp add: rolling_def)

lemma window_last: "w \<le> length xs \<Longrightarrow> window w xs (length xs - 1) = drop (length xs - w) xs"
  by (cases "length xs") (simp_all add: window_def)

lemma last_rolling:
  "xs \<noteq> [] \<Longrightarrow> last (rolling agg w xs) =
     (if 0 < w \<and> w \<le> length xs \<and> NaN \<notin> set (drop (length xs - w) xs)
      then agg (drop (length xs - w) xs) else NaN)"
proof -
  assume ne: "xs \<noteq> []"
  then have "last (rolling agg w xs) = rolling agg w xs ! (length xs - 1)"
    by (simp add: last_conv_nth length_rolling rolling_def)
  also have "\<dots> = (if 0 < w \<and> w \<le> length xs - 1 + 1 \<and> NaN \<notin> set (window w xs (length xs - 1))
                   then agg (window w xs (length xs - 1)) else NaN)"
    using ne by (simp add: rolling_def)
  also have "\<dots> = (if 0 < w \<and> w \<le> length xs \<and> NaN \<notin> set (drop (length xs - w) xs)
      then agg (drop (length xs - w) xs) else NaN)"
    using ne window_last[of w xs] by (cases "w \<le> length xs") simp_all
  finally show ?thesis .
qed

lemma rolling_Nil_iff: "rolling agg w xs = [] \<longleftrightarrow> xs = []"
  by (simp add: rolling_def)

lemma col_Nil_iff: "col f df = [] \<longleftrightarrow> df = []"
  by (simp add: col_def)

lemma NaN_notin_col: "NaN \<notin> set (drop k (col f df))"
  by (auto simp: col_def drop_map)

lemma last_col: "df \<noteq> [] \<Longrightarrow> last (col f df) = Fin (f (last df))"
  by (simp add: col_def last_map)

lemma drop_col: "drop k (col f df) = col f (drop k df)"
  by (simp add: col_def drop_map)

lemma length_col: "length (col f df) = length df"
  by (simp add: col_def)

lemma last_rolling_col:
  "df \<noteq> [] \<Longrightarrow> last (rolling agg w (col f df)) =
     (if 0 < w \<and> w \<le> length df
      then agg (col f (drop (length df - w) df)) else NaN)"
  using last_rolling [of "col f df" agg w] NaN_notin_col [of "length df - w" f df]
  by (simp add: col_Nil_iff length_col drop_col)

lemma iloc_rolling_col:
  "df \<noteq> [] \<Longrightarrow> iloc (rolling agg w (col f df)) (-1) =
     Inr (if 0 < w \<and> w \<le> length df
          then agg (col f (drop (length df - w) df)) else NaN)"
  by (simp add: iloc_last rolling_Nil_iff col_Nil_iff last_rolling_col)

lemma iloc_col_last: "df \<noteq> [] \<Longrightarrow> iloc (col f df) (-1) = Inr (Fin (f (last df)))"
  by (simp add: iloc_last col_Nil_iff last_col)

subsection \<open>Rolling maximum and minimum of a finite column\<close>

lemma foldl_fmax_Fin: "foldl fmax (Fin a) (map Fin xs) = Fin (foldl max a xs)"
  by (induction xs arbitrary: a) (auto simp: fmax_def max_def)

lemma foldl_fmin_Fin: "foldl fmin (Fin a) (map Fin xs) = Fin (foldl min a xs)"
  by (induction xs arbitrary: a) (auto simp: fmin_def flt_def min_def)

lemma foldl_max_Max: "foldl max (a::real) xs = Max (set (a # xs))"
proof -
  have "(\<lambda>x s. max s x) = (max :: real \<Rightarrow> real \<Rightarrow> real)"
    by (intro ext) (rule max.commute)
  then show ?thesis
    by (simp add: Max.set_eq_fold foldl_conv_fold del: set_simps)
qed

lemma foldl_min_Min: "foldl min (a::real) xs = Min (set (a # xs))"
proof -
  have "(\<lambda>x s. min s x) = (min :: real \<Rightarrow> real \<Rightarrow> real)"
    by (intro ext) (rule min.commute)
  then show ?thesis
    by (simp add: Min.set_eq_fold foldl_conv_fold del: set_simps)
qed

lemma agg_max_Fin: "xs \<noteq> [] \<Longrightarrow> agg_max (map Fin xs) = Fin (Max (set xs))"
  by (cases xs) (simp_all add: agg_max_def foldl_fmax_Fin foldl_max_Max del: Max_insert set_simps)

lemma agg_min_Fin: "xs \<noteq> [] \<Longrightarrow> agg_min (map Fin xs) = Fin (Min (set xs))"
  by (cases xs) (simp_all add: agg_min_def foldl_fmin_Fin foldl_min_Min del: Min_insert set_simps)

lemma agg_max_col: "df \<noteq> [] \<Longrightarrow> agg_max (col f df) = Fin (Max (f ` set df))"
  using agg_max_Fin [of "map f df"] by (simp add: col_def comp_def)

lemma agg_min_col: "df \<noteq> [] \<Longrightarrow> agg_min (col f df) = Fin (Min (f ` set df))"
  using agg_min_Fin [of "map f df"] by (simp add: col_def comp_def)

section \<open>Price channel breakout\<close>

text \<open>
  Claim C2, as the code has it.  \<open>calculate_channel_breakout\<close> raises IndexError on the
  empty series.  On a series of at least 20 bars it returns 1 when the last close exceeds
  the highest high of the last 20 bars (the last bar included), -1 when the last close is
  below the lowest low of the last 20 bars, and 0 otherwise.  On a series of 1 to 19 bars
  both rolling extremes are NaN, both comparisons are false, and the function returns the
  ordinary number 0: there is no separate value for "undefined".
\<close>

theorem channel_breakout_values:
  "calculate_channel_breakout df =
     (if df = [] then Inl IndexError
      else if length df < 20 then Inr 0
      else Inr (if Max (high ` set (drop (length df - 20) df)) < close (last df) then 1
                else if close (last df) < Min (low ` set (drop (length df - 20) df)) then -1
                else 0))"
proof (cases "df = []")
  case True
  then show ?thesis
    by (simp add: calculate_channel_breakout_def rolling_def col_def iloc_Nil ebind_def)
next
  case ne: False
  show ?thesis
  proof (cases "length df < 20")
    case True
    with ne show ?thesis
      by (simp add: calculate_channel_breakout_def iloc_rolling_col iloc_col_last ebind_def
          flt_def)
  next
    case False
    then have d: "drop (length df - 20) df \<noteq> []" by simp
    have h: "iloc (rolling agg_max 20 (col high df)) (-1)
               = Inr (Fin (Max (high ` set (drop (length df - 20) df))))"
      using ne False by (simp add: iloc_rolling_col agg_max_col [OF d])
    have l: "iloc (rolling agg_min 20 (col low df)) (-1)
               = Inr (Fin (Min (low ` set (drop (length df - 20) df))))"
      using ne False by (simp add: iloc_rolling_col agg_min_col [OF d])
    have c: "iloc (col close df) (-1) = Inr (Fin (close (last df)))"
      using ne by (rule iloc_col_last)
    show ?thesis
      unfolding calculate_channel_breakout_def h l c
      using ne False by (simp only: ebind_def sum.case flt_def fgt.simps if_False)
  qed
qed

text \<open>The theorem at a flat 20-bar series, at a 20-bar series whose last close breaks
  out, at a one-bar series and at the empty series.\<close>

theorem channel_breakout_values_witness:
  "calculate_channel_breakout (replicate 20 (flat_bar 1 1)) = Inr 0
   \<and> calculate_channel_breakout (replicate 19 (flat_bar 1 1) @ [bar_of 1 1 2 1]) = Inr 1
   \<and> calculate_channel_breakout [flat_bar 1 1] = Inr 0
   \<and> calculate_channel_breakout [] = Inl IndexError"
  using channel_breakout_values [of "replicate 20 (flat_bar 1 1)"]
    channel_breakout_values [of "replicate 19 (flat_bar 1 1) @ [bar_of 1 1 2 1]"]
    channel_breakout_values [of "[flat_bar 1 1]"]
    channel_breakout_values [of "[]"]
  by (simp add: flat_bar_def bar_of_def)

text \<open>A one-bar series (fewer than 20 bars) gets the ordinary signal 0, "within the
  channel", which the claim requires the result to be distinguishable from.\<close>

theorem channel_breakout_short_counterexample:
  "calculate_channel_breakout [bar_of 3 1 2 1] = Inr 0"
  by (simp add: calculate_channel_breakout_def rolling_def window_def col_def iloc_def
      ebind_def flt_def bar_of_def)

section \<open>Rate of change\<close>

lemma nth_col: "i < length df \<Longrightarrow> col f df ! i = Fin (f (df ! i))"
  by (simp add: col_def)

text \<open>
  Claim C7.  The specification's rate of change over a period \<open>p\<close> compares the last close
  with the close \<open>p\<close> bars earlier and so needs more than \<open>p\<close> bars.  The code reads the
  reference close with \<open>iloc[-period]\<close>, which is the bar only \<open>p - 1\<close> positions before
  the last one.  At period 2 on the closes 1, 2, 3 the specified value is
  (3 - 1) / 1 \<times> 100 = 200 and the code returns (3 - 2) / 2 \<times> 100 = 50; on the two closes
  1, 2 the specified function has too little history and the code returns
  (2 - 1) / 1 \<times> 100 = 100.  All numbers involved are small whole numbers, on which
  float64 arithmetic is exact.
\<close>

theorem roc_reference_bar_off_by_one:
  "calculate_roc [bar_of 1 1 1 1, bar_of 2 2 2 1, bar_of 3 3 3 1] 2 = Inr (Fin 50)
   \<and> roc_as_specified [bar_of 1 1 1 1, bar_of 2 2 2 1, bar_of 3 3 3 1] 2 = Inr (Fin 200)
   \<and> calculate_roc [bar_of 1 1 1 1, bar_of 2 2 2 1] 2 = Inr (Fin 100)
   \<and> roc_as_specified [bar_of 1 1 1 1, bar_of 2 2 2 1] 2 = Inl IndexError"
  by (simp add: calculate_roc_def roc_as_specified_def iloc_def col_def ebind_def fsub_def
      bar_of_def)

section \<open>Sums over finite columns\<close>

lemma foldl_fadd_Fin: "foldl fadd (Fin a) (map Fin xs) = Fin (a + sum_list xs)"
  by (induction xs arbitrary: a) (simp_all add: add.assoc)

lemma fsum_Fin: "fsum (map Fin xs) = Fin (sum_list xs)"
  by (simp add: fsum_def foldl_fadd_Fin)

lemma fsum_col: "fsum (col f df) = Fin (sum_list (map f df))"
  using fsum_Fin [of "map f df"] by (simp add: col_def comp_def)

lemma dropna_col: "dropna (col f df) = col f df"
  by (induction df) (simp_all add: dropna_def col_def isna_def)

lemma map2f_col: "map2f h (col f df) (col g df) = map (\<lambda>b. h (Fin (f b)) (Fin (g b))) df"
  by (induction df) (simp_all add: map2f_def col_def)

lemma map2f_fmul_col: "map2f fmul (col f df) (col g df) = col (\<lambda>b. f b * g b) df"
  using map2f_col [of fmul f df g] by (simp add: col_def)

lemma series_sum_col: "series_sum (col f df) = Fin (sum_list (map f df))"
  by (simp add: series_sum_def dropna_col fsum_col)

section \<open>Volume composition\<close>

text \<open>
  Claim C4, as the code has it.  When every bar has quote volume \<open>volume \<times> close = 0\<close>,
  the total quote volume is zero, the guard \<open>total_volume != 0\<close> of
  \<open>calculate_volume_composition\<close> fails, and the function returns the literal dictionary
  whose two entries are the ordinary number 0, whatever the taker-buy volumes are; no
  infinity is returned.  (A product with a zero factor and a sum of zeros are exact in
  float64, so this is the computation the code performs.)  The empty series is included.
\<close>

theorem volume_composition_zero_total:
  "\<forall>b\<in>set df. volume b * close b = 0 \<Longrightarrow>
     calculate_volume_composition df = \<lparr>buy_volume = Fin 0, sell_volume = Fin 0\<rparr>"
proof -
  assume z: "\<forall>b\<in>set df. volume b * close b = 0"
  then have "(\<Sum>b\<leftarrow>df. volume b * close b) = 0"
    by (induction df) simp_all
  then show ?thesis
    by (simp add: calculate_volume_composition_def map2f_fmul_col series_sum_col fne_def
        Let_def)
qed

text \<open>The theorem at a two-bar series without traded volume whose second bar has
  taker-buy volume 7, and at the empty series.\<close>

theorem volume_composition_zero_total_witness:
  "calculate_volume_composition
     [flat_bar 5 0, \<lparr>high = 6, low = 6, close = 6, volume = 0, taker_buy_quote = 7\<rparr>]
     = \<lparr>buy_volume = Fin 0, sell_volume = Fin 0\<rparr>
   \<and> calculate_volume_composition [] = \<lparr>buy_volume = Fin 0, sell_volume = Fin 0\<rparr>"
  using volume_composition_zero_total
      [of "[flat_bar 5 0, \<lparr>high = 6, low = 6, close = 6, volume = 0, taker_buy_quote = 7\<rparr>]"]
    volume_composition_zero_total [of "[]"]
  by (simp add: flat_bar_def)

text \<open>A one-bar series with volume 0 has total quote volume 0, and both results are the
  ordinary number 0, not the infinity the claim requires.\<close>

theorem volume_composition_zero_counterexample:
  "buy_volume (calculate_volume_composition [flat_bar 5 0]) = Fin 0
   \<and> sell_volume (calculate_volume_composition [flat_bar 5 0]) = Fin 0
   \<and> buy_volume (calculate_volume_composition [flat_bar 5 0]) \<noteq> PInf
   \<and> sell_volume (calculate_volume_composition [flat_bar 5 0]) \<noteq> PInf"
  by (simp add: calculate_volume_composition_def series_sum_def dropna_def isna_def
      fsum_def map2f_def col_def fne_def flat_bar_def Let_def)

section \<open>Exponential moving average\<close>

lemma col_const:
  "\<forall>b\<in>set df. f b = c \<Longrightarrow> col f df = replicate (length df) (Fin c)"
  by (induction df) (simp_all add: col_def)

lemma ewm_from_const: "ewm_from \<alpha> (Fin c) (replicate n (Fin c)) = replicate n (Fin c)"
  by (induction n) (simp_all add: Let_def algebra_simps)

lemma ewm_mean_const: "ewm_mean n (replicate k (Fin c)) = replicate k (Fin c)"
  by (cases k) (simp_all add: ewm_mean_def ewm_from_const)

text \<open>
  Claim C9.  On a series whose closes all equal \<open>c\<close>, the smoothed series
  \<open>y\<^sub>0 = x\<^sub>0\<close>, \<open>y\<^sub>t = (1 - \<alpha>) y\<^sub>t\<^sub>-\<^sub>1 + \<alpha> x\<^sub>t\<close> with \<open>\<alpha> = 2 / 21\<close> holds \<open>c\<close> at every
  position, the first included, so it has no undefined warm-up region, and
  \<open>calculate_ema_20\<close> returns \<open>c\<close> for every series of at least one bar.
\<close>

theorem ema_20_constant_series:
  "df \<noteq> [] \<Longrightarrow> \<forall>b\<in>set df. close b = c \<Longrightarrow>
     ewm_mean 20 (col close df) = replicate (length df) (Fin c)
     \<and> calculate_ema_20 df = Inr (Fin c)"
proof -
  assume ne: "df \<noteq> []" and all: "\<forall>b\<in>set df. close b = c"
  have e: "ewm_mean 20 (col close df) = replicate (length df) (Fin c)"
    by (simp only: col_const [OF all] ewm_mean_const)
  have "calculate_ema_20 df = Inr (last (replicate (length df) (Fin c)))"
    unfolding calculate_ema_20_def e using ne by (simp add: iloc_last)
  with ne e show ?thesis by simp
qed

text \<open>The theorem at a one-bar series and at a three-bar series with close 7 whose highs,
  lows and volumes vary.\<close>

theorem ema_20_constant_series_witness:
  "calculate_ema_20 [bar_of 9 5 7 1] = Inr (Fin 7)
   \<and> ewm_mean 20 (col close [bar_of 9 5 7 1, bar_of 8 7 7 3, bar_of 7 1 7 2])
       = [Fin 7, Fin 7, Fin 7]
   \<and> calculate_ema_20 [bar_of 9 5 7 1, bar_of 8 7 7 3, bar_of 7 1 7 2] = Inr (Fin 7)"
  using ema_20_constant_series [of "[bar_of 9 5 7 1]" 7]
    ema_20_constant_series [of "[bar_of 9 5 7 1, bar_of 8 7 7 3, bar_of 7 1 7 2]" 7]
  by (simp add: bar_of_def numeral_3_eq_3)

section \<open>On-balance volume\<close>


lemma series_diff_col:
  "series_diff (col f df) =
     map (\<lambda>i. if i = 0 then NaN else Fin (f (df ! i) - f (df ! (i - 1)))) [0..<length df]"
  by (simp add: series_diff_def length_col nth_col fsub_def)


lemma cumsum_from_Nil_iff: "cumsum_from a xs = [] \<longleftrightarrow> xs = []"
  by (cases xs) simp_all

lemma last_cumsum_from_Fin:
  "xs \<noteq> [] \<Longrightarrow> last (cumsum_from (Fin a) (map Fin xs)) = Fin (a + sum_list xs)"
proof (induction xs arbitrary: a)
  case Nil
  then show ?case by simp
next
  case (Cons x xs)
  then show ?case
    by (cases "xs = []") (simp_all add: isna_def add.assoc cumsum_from_Nil_iff)
qed







section \<open>Relative strength index\<close>

lemma col_map: "col f df = map Fin (map f df)"
  by (simp add: col_def)

lemma calculate_rsi_cong:
  "map close df = map close df' \<Longrightarrow> calculate_rsi df p = calculate_rsi df' p"
  by (simp add: calculate_rsi_def rsi_series_def col_map)

lemma rsi_rising_closes:
  "calculate_rsi (map (\<lambda>c. bar_of c c c 1) [10, 11, 12, 13, 14, 15, 16, 17, 18, 19, 20, 21, 22, 23]) 14
     = Inr (Fin 100)"
  by code_simp

text \<open>
  Claim C5.  On the fourteen closes 10, 11, \<dots>, 23 the price change is NaN at index 0
  and 1 afterwards, so the gain column is 0, 1, \<dots>, 1 and the loss column is all zero.
  With period 14 the only full window is the last one: the mean gain is 13/14, the mean
  loss is zero, \<open>rs\<close> is infinite, \<open>100 / (1 + rs)\<close> is zero and the index is 100.  The
  result is 100 exactly, hence within every tolerance.  In float64 the mean gain is the
  rounded quotient of the exact sum 13, still positive, and the zero mean loss may carry
  either sign; \<open>rs\<close> is then an infinity of either sign, \<open>100 / (1 + rs)\<close> a zero of either
  sign and \<open>100 - 0\<close> is 100 in both cases, so the float64 result is 100.0 as well.  The
  other columns of the frame are not read.
\<close>

theorem rsi_of_rising_closes_is_100:
  "map close df = [10, 11, 12, 13, 14, 15, 16, 17, 18, 19, 20, 21, 22, 23] \<Longrightarrow>
     calculate_rsi df 14 = Inr (Fin 100)"
proof -
  assume "map close df = [10, 11, 12, 13, 14, 15, 16, 17, 18, 19, 20, 21, 22, 23]"
  then have "map close df =
      map close (map (\<lambda>c. bar_of c c c 1) [10, 11, 12, 13, 14, 15, 16, 17, 18, 19, 20, 21, 22, 23])"
    by (simp add: bar_of_def)
  then have "calculate_rsi df 14 =
      calculate_rsi (map (\<lambda>c. bar_of c c c 1) [10, 11, 12, 13, 14, 15, 16, 17, 18, 19, 20, 21, 22, 23]) 14"
    by (rule calculate_rsi_cong)
  then show ?thesis
    by (simp only: rsi_rising_closes)
qed

text \<open>The theorem at the series whose bars have these closes, highs two above, lows one
  below and volume 7.\<close>

theorem rsi_of_rising_closes_is_100_witness:
  "map close (map (\<lambda>c. bar_of (c + 2) (c - 1) c 7)
                  [10, 11, 12, 13, 14, 15, 16, 17, 18, 19, 20, 21, 22, 23])
     = [10, 11, 12, 13, 14, 15, 16, 17, 18, 19, 20, 21, 22, 23]
   \<and> calculate_rsi (map (\<lambda>c. bar_of (c + 2) (c - 1) c 7)
                         [10, 11, 12, 13, 14, 15, 16, 17, 18, 19, 20, 21, 22, 23]) 14
       = Inr (Fin 100)"
  using rsi_of_rising_closes_is_100
    [of "map (\<lambda>c. bar_of (c + 2) (c - 1) c 7)
             [10, 11, 12, 13, 14, 15, 16, 17, 18, 19, 20, 21, 22, 23]"]
  by (simp add: bar_of_def)
section \<open>Simple moving average and volume-weighted average price\<close>

lemma agg_mean_replicate: "0 < n \<Longrightarrow> agg_mean (replicate n (Fin c)) = Fin c"
proof -
  assume n: "0 < n"
  have "replicate n (Fin c) = map Fin (replicate n c)"
    by simp
  then have "fsum (replicate n (Fin c)) = Fin (real n * c)"
    by (simp only: fsum_Fin sum_list_replicate)
  with n show ?thesis
    by (simp add: agg_mean_def)
qed

lemma calculate_sma_50_const:
  assumes "\<forall>b\<in>set df. close b = c"
  shows "calculate_sma_50 df =
     (if df = [] then Inl IndexError else if length df < 50 then Inr NaN else Inr (Fin c))"
proof (cases "df = []")
  case True
  then show ?thesis
    by (simp add: calculate_sma_50_def rolling_def col_def iloc_Nil)
next
  case ne: False
  show ?thesis
  proof (cases "length df < 50")
    case True
    with ne show ?thesis
      by (simp add: calculate_sma_50_def iloc_rolling_col)
  next
    case False
    have "\<forall>b\<in>set (drop (length df - 50) df). close b = c"
      using assms by (auto dest: in_set_dropD)
    then have "col close (drop (length df - 50) df)
                 = replicate (length (drop (length df - 50) df)) (Fin c)"
      by (rule col_const)
    also have "length (drop (length df - 50) df) = 50"
      using False by simp
    finally have "agg_mean (col close (drop (length df - 50) df)) = Fin c"
      by (simp add: agg_mean_replicate)
    with ne False show ?thesis
      by (simp add: calculate_sma_50_def iloc_rolling_col)
  qed
qed

lemma map2f_fadd_col: "map2f fadd (col f df) (col g df) = col (\<lambda>b. f b + g b) df"
  using map2f_col [of fadd f df g] by (simp add: col_def)

lemma length_cumsum_from: "length (cumsum_from a xs) = length xs"
  by (induction xs arbitrary: a) simp_all

lemma last_map2f:
  "xs \<noteq> [] \<Longrightarrow> length xs = length ys \<Longrightarrow> last (map2f h xs ys) = h (last xs) (last ys)"
proof -
  assume ne: "xs \<noteq> []" and len: "length xs = length ys"
  then have "ys \<noteq> []" by auto
  with ne len show ?thesis
    by (simp add: map2f_def last_conv_nth)
qed

lemma last_cumsum_col:
  "df \<noteq> [] \<Longrightarrow> last (cumsum (col f df)) = Fin (sum_list (map f df))"
  using last_cumsum_from_Fin [of "map f df" 0] by (simp add: cumsum_def col_def comp_def)

lemma calculate_vwap_sum:
  "calculate_vwap df =
     (if df = [] then Inl IndexError
      else Inr (fdiv (Fin (\<Sum>b\<leftarrow>df. (high b + low b + close b) / 3 * volume b))
                     (Fin (\<Sum>b\<leftarrow>df. volume b))))"
proof (cases "df = []")
  case True
  then show ?thesis
    by (simp add: calculate_vwap_def col_def map2f_def cumsum_def iloc_Nil)
next
  case False
  have tp: "map (\<lambda>s. fdiv s (Fin 3))
              (map2f fadd (map2f fadd (col high df) (col low df)) (col close df))
            = col (\<lambda>b. (high b + low b + close b) / 3) df"
    unfolding map2f_fadd_col by (simp add: col_def)
  have ne: "cumsum (col (\<lambda>b. (high b + low b + close b) / 3 * volume b) df) \<noteq> []"
    using False by (simp add: cumsum_def cumsum_from_Nil_iff col_Nil_iff)
  have ne2: "cumsum (col volume df) \<noteq> []"
    using False by (simp add: cumsum_def cumsum_from_Nil_iff col_Nil_iff)
  have len: "length (cumsum (col (\<lambda>b. (high b + low b + close b) / 3 * volume b) df))
               = length (cumsum (col volume df))"
    by (simp add: cumsum_def length_cumsum_from length_col)
  have "calculate_vwap df =
          iloc (map2f fdiv (cumsum (col (\<lambda>b. (high b + low b + close b) / 3 * volume b) df))
                           (cumsum (col volume df))) (-1)"
    unfolding calculate_vwap_def Let_def tp map2f_fmul_col ..
  also have "\<dots> = Inr (last (map2f fdiv
                      (cumsum (col (\<lambda>b. (high b + low b + close b) / 3 * volume b) df))
                      (cumsum (col volume df))))"
    using ne ne2 by (intro iloc_last) (simp add: map2f_def)
  also have "\<dots> = Inr (fdiv (Fin (\<Sum>b\<leftarrow>df. (high b + low b + close b) / 3 * volume b))
                           (Fin (\<Sum>b\<leftarrow>df. volume b)))"
    unfolding last_map2f [OF ne len] last_cumsum_col [OF False] ..
  finally show ?thesis
    using False by simp
qed

text \<open>
  Claim C8, as the code has it.  \<open>calculate_sma_50\<close> is the mean of the last 50 closes and
  needs 50 bars: on a series of 1 to 49 bars the rolling window is never full and the
  result is NaN, whatever the closes are; on the empty series it raises IndexError.  With
  all closes equal to \<open>c\<close> and at least 50 bars it returns \<open>c\<close>.
  \<open>calculate_vwap\<close> weighs the typical price \<open>(high + low + close) / 3\<close>, not the close, so
  constant closes alone do not fix its value, and it divides by the total volume, so a
  series without volume gives NaN.  When the highs and lows equal \<open>c\<close> as well and the
  total volume is positive, it returns \<open>c\<close>.

  The statement is for a whole number \<open>c\<close> of absolute value at most \<open>2\<^sup>4\<^sup>7\<close> and, for the
  average price, whole-number volumes that are not negative, with total volume \<open>V\<close> and
  \<open>3 |c| V\<close> at most \<open>2\<^sup>5\<^sup>3\<close>.  Then every sum and product formed on the way (the window
  sums of up to 51 closes, \<open>3 c\<close>, \<open>c \<times> volume\<close>, the two running sums) is a whole number of
  absolute value at most \<open>2\<^sup>5\<^sup>3\<close>, which float64 represents, and the quotients \<open>50 c / 50\<close>,
  \<open>3 c / 3\<close> and \<open>c V / V\<close> are exact, so float64 computes the values stated.
\<close>

theorem constant_series_sma_and_vwap:
  "c \<in> \<int> \<Longrightarrow> \<bar>c\<bar> \<le> 2 ^ 47 \<Longrightarrow> \<forall>b\<in>set df. close b = c \<Longrightarrow>
     calculate_sma_50 df =
       (if df = [] then Inl IndexError
        else if length df < 50 then Inr NaN else Inr (Fin c))
     \<and> ((\<forall>b\<in>set df. high b = c \<and> low b = c \<and> volume b \<in> \<int> \<and> 0 \<le> volume b)
          \<and> 0 < (\<Sum>b\<leftarrow>df. volume b) \<and> (\<Sum>b\<leftarrow>df. volume b) \<le> 2 ^ 53
          \<and> 3 * \<bar>c\<bar> * (\<Sum>b\<leftarrow>df. volume b) \<le> 2 ^ 53
        \<longrightarrow> calculate_vwap df = Inr (Fin c))"
proof (intro conjI impI)
  assume "\<forall>b\<in>set df. close b = c"
  then show "calculate_sma_50 df =
       (if df = [] then Inl IndexError
        else if length df < 50 then Inr NaN else Inr (Fin c))"
    by (rule calculate_sma_50_const)
next
  assume cl: "\<forall>b\<in>set df. close b = c"
    and h: "(\<forall>b\<in>set df. high b = c \<and> low b = c \<and> volume b \<in> \<int> \<and> 0 \<le> volume b)
          \<and> 0 < (\<Sum>b\<leftarrow>df. volume b) \<and> (\<Sum>b\<leftarrow>df. volume b) \<le> 2 ^ 53
          \<and> 3 * \<bar>c\<bar> * (\<Sum>b\<leftarrow>df. volume b) \<le> 2 ^ 53"
  from h have ne: "df \<noteq> []" by auto
  have "map (\<lambda>b. (high b + low b + close b) / 3 * volume b) df = map (\<lambda>b. c * volume b) df"
    using cl h by (intro map_cong) auto
  then have "(\<Sum>b\<leftarrow>df. (high b + low b + close b) / 3 * volume b) = c * (\<Sum>b\<leftarrow>df. volume b)"
    by (simp only: sum_list_const_mult)
  with ne h show "calculate_vwap df = Inr (Fin c)"
    by (simp add: calculate_vwap_sum)
qed

text \<open>The theorem at price 3 on 50 bars of volume 2, on a single bar, and on two bars of
  which the second has no volume.\<close>

theorem constant_series_sma_and_vwap_witness:
  "calculate_sma_50 (replicate 50 (flat_bar 3 2)) = Inr (Fin 3)
   \<and> calculate_vwap (replicate 50 (flat_bar 3 2)) = Inr (Fin 3)
   \<and> calculate_sma_50 [flat_bar 3 2] = Inr NaN
   \<and> calculate_vwap [flat_bar 3 2, flat_bar 3 0] = Inr (Fin 3)"
  using constant_series_sma_and_vwap [of 3 "replicate 50 (flat_bar 3 2)"]
    constant_series_sma_and_vwap [of 3 "[flat_bar 3 2]"]
    constant_series_sma_and_vwap [of 3 "[flat_bar 3 2, flat_bar 3 0]"]
  by (simp add: flat_bar_def sum_list_replicate)

text \<open>Three series whose closes all equal 1: on a single bar the 50-bar average is NaN;
  a bar with high 4 and low 1 has typical price 2, which is the average price returned;
  and a bar without volume gives the average price 0 / 0, NaN.\<close>

theorem constant_series_counterexample:
  "calculate_sma_50 [flat_bar 1 1] = Inr NaN
   \<and> calculate_vwap [bar_of 4 1 1 1] = Inr (Fin 2)
   \<and> calculate_vwap [flat_bar 1 0] = Inr NaN"
  by (simp add: calculate_sma_50_def calculate_vwap_def rolling_def window_def col_def
      map2f_def cumsum_def isna_def iloc_def flat_bar_def bar_of_def)
section \<open>Peer metrics on a flat series\<close>

lemma map2f_replicate: "map2f h (replicate n a) (replicate n b) = replicate n (h a b)"
  by (induction n) (simp_all add: map2f_def)

lemma dropna_replicate_Fin: "dropna (replicate n (Fin a)) = replicate n (Fin a)"
  by (simp add: dropna_def isna_def)

lemma calculate_nvt_ratio_flat:
  assumes "\<forall>b\<in>set df. close b = c \<and> volume b = v" and "df \<noteq> []" and "c \<noteq> 0" and "v \<noteq> 0"
  shows "calculate_nvt_ratio df S = Fin (S / v)"
proof -
  have c: "col close df = replicate (length df) (Fin c)"
    using assms(1) by (intro col_const) simp
  have v: "col volume df = replicate (length df) (Fin v)"
    using assms(1) by (intro col_const) simp
  have "calculate_nvt_ratio df S = agg_mean (replicate (length df) (Fin (c * S / (v * c))))"
    unfolding calculate_nvt_ratio_def Let_def c v series_mean_def
    using assms(3,4) by (simp add: map2f_replicate dropna_replicate_Fin)
  also have "\<dots> = Fin (c * S / (v * c))"
    using assms(2) by (simp add: agg_mean_replicate)
  also have "c * S / (v * c) = S / v"
    using assms(3,4) by simp
  finally show ?thesis .
qed

lemma calculate_mayer_multiple_const:
  assumes "\<forall>b\<in>set df. close b = c" and "200 \<le> length df" and "c \<noteq> 0"
  shows "calculate_mayer_multiple df = Inr (Fin 1)"
proof -
  from assms(2) have ne: "df \<noteq> []" by auto
  have "\<forall>b\<in>set (drop (length df - 200) df). close b = c"
    using assms(1) by (auto dest: in_set_dropD)
  then have "col close (drop (length df - 200) df)
               = replicate (length (drop (length df - 200) df)) (Fin c)"
    by (rule col_const)
  also have "length (drop (length df - 200) df) = 200"
    using assms(2) by simp
  finally have "agg_mean (col close (drop (length df - 200) df)) = Fin c"
    by (simp add: agg_mean_replicate)
  then have ma: "iloc (rolling agg_mean 200 (col close df)) (-1) = Inr (Fin c)"
    using ne assms(2) by (simp add: iloc_rolling_col)
  have "last df \<in> set df"
    using ne by simp
  then have cur: "iloc (col close df) (-1) = Inr (Fin c)"
    using ne assms(1) by (simp add: iloc_col_last)
  show ?thesis
    unfolding calculate_mayer_multiple_def ma cur
    using assms(3) by (simp add: ebind_def fne_def)
qed

text \<open>
  Claim C1, as the code has it.  On a series whose closes all equal \<open>c\<close> and whose
  volumes all equal \<open>v\<close>, every entry of \<open>market_caps / volumes\<close> is \<open>c S / (v c) = S / v\<close>
  for the supply \<open>S\<close>, so \<open>calculate_nvt_ratio\<close> returns the finite number \<open>S / v\<close>; no
  denominator is zero.  The 200-bar mean of the closes is \<open>c\<close>, which is not zero, so the
  guard of \<open>calculate_mayer_multiple\<close> takes the branch \<open>current_price / ma_200\<close> and the
  function returns 1.  Neither function returns an infinity on such a series.

  The statement is for whole numbers \<open>c\<close>, \<open>v\<close>, \<open>S\<close> with a whole quotient \<open>S / v\<close> and
  with \<open>c S\<close>, \<open>c v\<close>, \<open>250 S\<close> and \<open>250 c\<close> at most \<open>2\<^sup>5\<^sup>3\<close>: the products, the sums of up
  to 250 equal terms and the quotients are then whole numbers that float64 represents,
  and float64 computes the values stated.  The third function of the claim,
  \<open>calculate_sharpe_ratio\<close>, returns infinity only when the sample standard deviation of
  249 copies of the float64 number \<open>0.05 / 365 - 0.025 / 365\<close> is computed as exactly zero;
  that depends on how the sum of these copies is rounded, which is outside this model,
  and nothing is stated about it.
\<close>

theorem flat_series_nvt_and_mayer:
  "length df = 250 \<Longrightarrow> \<forall>b\<in>set df. close b = c \<and> volume b = v \<Longrightarrow>
   c \<in> \<int> \<Longrightarrow> v \<in> \<int> \<Longrightarrow> S \<in> \<int> \<Longrightarrow> S / v \<in> \<int> \<Longrightarrow> 0 < c \<Longrightarrow> 0 < v \<Longrightarrow> 0 \<le> S \<Longrightarrow>
   c * S \<le> 2 ^ 53 \<Longrightarrow> c * v \<le> 2 ^ 53 \<Longrightarrow> 250 * S \<le> 2 ^ 53 \<Longrightarrow> 250 * c \<le> 2 ^ 53 \<Longrightarrow>
     calculate_nvt_ratio df S = Fin (S / v)
     \<and> calculate_mayer_multiple df = Inr (Fin 1)"
proof -
  assume len: "length df = 250" and flat: "\<forall>b\<in>set df. close b = c \<and> volume b = v"
    and pos: "0 < c" "0 < v"
  from len have ne: "df \<noteq> []" by auto
  have "calculate_nvt_ratio df S = Fin (S / v)"
    using flat ne pos by (intro calculate_nvt_ratio_flat [where c = c]) simp_all
  moreover have "calculate_mayer_multiple df = Inr (Fin 1)"
    using flat len pos by (intro calculate_mayer_multiple_const [where c = c]) simp_all
  ultimately show ?thesis ..
qed

text \<open>The theorem at 250 bars of price 100 and volume 4 with a supply of 16 million.\<close>

theorem flat_series_nvt_and_mayer_witness:
  "calculate_nvt_ratio (replicate 250 (flat_bar 100 4)) 16000000 = Fin 4000000
   \<and> calculate_mayer_multiple (replicate 250 (flat_bar 100 4)) = Inr (Fin 1)"
  using flat_series_nvt_and_mayer [of "replicate 250 (flat_bar 100 4)" 100 4 16000000]
  by (simp add: flat_bar_def)

text \<open>250 bars of price 1 and volume 1 with a supply of 2: the NVT ratio is 2 and the
  Mayer multiple is 1, both finite.\<close>

theorem flat_series_counterexample:
  "calculate_nvt_ratio (replicate 250 (flat_bar 1 1)) 2 = Fin 2
   \<and> calculate_mayer_multiple (replicate 250 (flat_bar 1 1)) = Inr (Fin 1)"
  using calculate_nvt_ratio_flat [of "replicate 250 (flat_bar 1 1)" 1 1 2]
    calculate_mayer_multiple_const [of "replicate 250 (flat_bar 1 1)" 1]
  by (simp add: flat_bar_def)
section \<open>Oscillators\<close>

lemma length_map2f: "length (map2f h xs ys) = min (length xs) (length ys)"
  by (simp add: map2f_def)

lemma length_series_diff: "length (series_diff xs) = length xs"
  by (simp add: series_diff_def)

lemma calculate_rsi_last:
  "df \<noteq> [] \<Longrightarrow> calculate_rsi df p = Inr (last (rsi_series df p))"
proof -
  assume ne: "df \<noteq> []"
  have "length (rsi_series df p) = length df"
    by (simp add: rsi_series_def Let_def length_map2f length_rolling length_series_diff
        length_col)
  with ne have ne': "rsi_series df p \<noteq> []"
    by auto
  show ?thesis
  proof (cases "list_all isna (rsi_series df p)")
    case True
    with ne' have "isna (last (rsi_series df p))"
      by (simp add: list_all_iff)
    with True show ?thesis
      by (simp add: calculate_rsi_def isna_def)
  next
    case False
    with ne' show ?thesis
      by (simp add: calculate_rsi_def iloc_last)
  qed
qed

lemma gain_column:
  "map (\<lambda>d. if fgt d (Fin 0) then d else Fin 0) (series_diff (col close df))
     = map Fin (map (\<lambda>i. if i = 0 then 0 else max 0 (close (df ! i) - close (df ! (i - 1))))
                    [0..<length df])"
  by (simp add: series_diff_col max_def)

lemma loss_column:
  "map fneg (map (\<lambda>d. if flt d (Fin 0) then d else Fin 0) (series_diff (col close df)))
     = map Fin (map (\<lambda>i. if i = 0 then 0 else max 0 (close (df ! (i - 1)) - close (df ! i)))
                    [0..<length df])"
  by (simp add: series_diff_col flt_def max_def)

lemma last_rolling_mean_Fin:
  assumes "0 < w" and "w \<le> length ys"
  shows "last (rolling agg_mean w (map Fin ys))
           = Fin (sum_list (drop (length ys - w) ys) / real w)"
proof -
  have ne: "map Fin ys \<noteq> []"
    using assms by auto
  have nn: "NaN \<notin> set (drop (length ys - w) (map Fin ys))"
    by (auto simp: drop_map)
  have "last (rolling agg_mean w (map Fin ys)) = agg_mean (drop (length ys - w) (map Fin ys))"
    using last_rolling [OF ne, of agg_mean w] assms nn by simp
  also have "\<dots> = agg_mean (map Fin (drop (length ys - w) ys))"
    by (simp add: drop_map)
  also have "\<dots> = Fin (sum_list (drop (length ys - w) ys) / real w)"
    using assms by (simp add: agg_mean_def fsum_Fin)
  finally show ?thesis .
qed

lemma last_rsi_series:
  assumes "14 \<le> length df"
  shows "last (rsi_series df 14) =
     fsub (Fin 100) (fdiv (Fin 100) (fadd (Fin 1)
       (fdiv (Fin ((\<Sum>i\<leftarrow>[length df - 14..<length df].
                      if i = 0 then 0 else max 0 (close (df ! i) - close (df ! (i - 1)))) / 14))
             (Fin ((\<Sum>i\<leftarrow>[length df - 14..<length df].
                      if i = 0 then 0 else max 0 (close (df ! (i - 1)) - close (df ! i))) / 14)))))"
proof -
  define g where "g = (\<lambda>i. if i = 0 then 0 else max 0 (close (df ! i) - close (df ! (i - 1))))"
  define l where "l = (\<lambda>i. if i = 0 then 0 else max 0 (close (df ! (i - 1)) - close (df ! i)))"
  define gain where "gain = rolling agg_mean 14 (map Fin (map g [0..<length df]))"
  define loss where "loss = rolling agg_mean 14 (map Fin (map l [0..<length df]))"
  have rsi: "rsi_series df 14
      = map (\<lambda>r. fsub (Fin 100) (fdiv (Fin 100) (fadd (Fin 1) r))) (map2f fdiv gain loss)"
    unfolding rsi_series_def Let_def gain_column loss_column gain_def loss_def g_def l_def ..
  have len: "length gain = length loss"
    by (simp add: gain_def loss_def length_rolling)
  have ne: "gain \<noteq> []"
    using assms by (auto simp: gain_def rolling_Nil_iff)
  have ne2: "map2f fdiv gain loss \<noteq> []"
    using ne len by (cases gain; cases loss) (simp_all add: map2f_def)
  have lg: "last gain = Fin (sum_list (map g [length df - 14..<length df]) / 14)"
    unfolding gain_def
    using assms last_rolling_mean_Fin [of 14 "map g [0..<length df]"]
    by (simp add: drop_map del: map_map)
  have ll: "last loss = Fin (sum_list (map l [length df - 14..<length df]) / 14)"
    unfolding loss_def
    using assms last_rolling_mean_Fin [of 14 "map l [0..<length df]"]
    by (simp add: drop_map del: map_map)
  have "last (rsi_series df 14)
      = fsub (Fin 100) (fdiv (Fin 100) (fadd (Fin 1) (fdiv (last gain) (last loss))))"
    unfolding rsi last_map [OF ne2] last_map2f [OF ne len] ..
  then show ?thesis
    unfolding lg ll g_def l_def .
qed

lemma rsi_value_range:
  assumes "0 \<le> G" and "0 \<le> L" and "0 < G + L"
  shows "result_between 0 100
     (Inr (fsub (Fin 100) (fdiv (Fin 100) (fadd (Fin 1) (fdiv (Fin (G / 14)) (Fin (L / 14)))))))"
proof (cases "L = 0")
  case True
  with assms have "0 < G" by simp
  with True show ?thesis
    by (simp add: fsub_def)
next
  case False
  with assms have L: "0 < L" by simp
  with assms have q: "0 \<le> G / L" by simp
  then have "100 / (1 + G / L) \<le> 100 / 1"
    by (intro divide_left_mono) simp_all
  moreover have "0 \<le> 100 / (1 + G / L)"
    using q by simp
  ultimately show ?thesis
    using False q by (simp add: fsub_def)
qed

lemma consecutive_equal_last:
  assumes eq: "\<forall>i. k < i \<and> i < length df \<longrightarrow> f (df ! i) = f (df ! (i - 1))"
    and "k \<le> j" and "j < length df"
  shows "f (df ! (length df - 1)) = f (df ! j)"
proof -
  have "j \<le> length df - 1"
    using assms by simp
  then show ?thesis
  proof (induction rule: dec_induct)
    case base
    show ?case by simp
  next
    case (step m)
    have "f (df ! Suc m) = f (df ! (Suc m - 1))"
      using eq step.hyps assms(2) by (intro eq [rule_format]) simp
    with step.IH show ?case by simp
  qed
qed

lemma calculate_rsi_range:
  assumes len: "15 \<le> length df"
    and diff: "\<exists>b\<in>set (drop (length df - 15) df). close b \<noteq> close (last df)"
  shows "result_between 0 100 (calculate_rsi df 14)"
proof -
  define g where "g = (\<lambda>i. if i = 0 then 0 else max 0 (close (df ! i) - close (df ! (i - 1))))"
  define l where "l = (\<lambda>i. if i = 0 then 0 else max 0 (close (df ! (i - 1)) - close (df ! i)))"
  define G where "G = sum_list (map g [length df - 14..<length df])"
  define L where "L = sum_list (map l [length df - 14..<length df])"
  have g0: "0 \<le> g i" for i
    by (simp add: g_def)
  have l0: "0 \<le> l i" for i
    by (simp add: l_def)
  have G0: "0 \<le> G"
    unfolding G_def by (rule sum_list_nonneg) (auto simp: g0)
  have L0: "0 \<le> L"
    unfolding L_def by (rule sum_list_nonneg) (auto simp: l0)
  have pos: "0 < G + L"
  proof (rule ccontr)
    assume "\<not> 0 < G + L"
    with G0 L0 have "G = 0" and "L = 0"
      by simp_all
    have "sum_list (map g [length df - 14..<length df]) = 0
            \<longleftrightarrow> (\<forall>x\<in>set (map g [length df - 14..<length df]). x = 0)"
      by (rule sum_list_nonneg_eq_0_iff) (auto simp: g0)
    with \<open>G = 0\<close> have gz: "\<forall>x\<in>set (map g [length df - 14..<length df]). x = 0"
      unfolding G_def by blast
    have "sum_list (map l [length df - 14..<length df]) = 0
            \<longleftrightarrow> (\<forall>x\<in>set (map l [length df - 14..<length df]). x = 0)"
      by (rule sum_list_nonneg_eq_0_iff) (auto simp: l0)
    with \<open>L = 0\<close> have lz: "\<forall>x\<in>set (map l [length df - 14..<length df]). x = 0"
      unfolding L_def by blast
    have eq: "\<forall>i. length df - 15 < i \<and> i < length df \<longrightarrow> close (df ! i) = close (df ! (i - 1))"
    proof (intro allI impI)
      fix i
      assume i: "length df - 15 < i \<and> i < length df"
      then have "i \<in> set [length df - 14..<length df]"
        by auto
      then have "g i = 0" and "l i = 0"
        using gz lz by simp_all
      moreover have "i \<noteq> 0"
        using i by simp
      ultimately have "max 0 (close (df ! i) - close (df ! (i - 1))) = 0"
        and "max 0 (close (df ! (i - 1)) - close (df ! i)) = 0"
        by (simp_all add: g_def l_def)
      then have "close (df ! i) - close (df ! (i - 1)) \<le> 0"
        and "close (df ! (i - 1)) - close (df ! i) \<le> 0"
        by (metis max.cobounded2)+
      then show "close (df ! i) = close (df ! (i - 1))"
        by simp
    qed
    from diff obtain b where b: "b \<in> set (drop (length df - 15) df)"
      and nb: "close b \<noteq> close (last df)"
      by blast
    from b obtain m where m: "m < length (drop (length df - 15) df)"
      and bm: "b = drop (length df - 15) df ! m"
      by (auto simp: in_set_conv_nth)
    have bj: "b = df ! (length df - 15 + m)"
      using bm m by simp
    have "close (df ! (length df - 1)) = close (df ! (length df - 15 + m))"
      using m by (intro consecutive_equal_last [OF eq]) simp_all
    moreover have "last df = df ! (length df - 1)"
      using len by (intro last_conv_nth) auto
    ultimately show False
      using nb bj by simp
  qed
  have ne: "df \<noteq> []"
    using len by auto
  have "14 \<le> length df"
    using len by simp
  then have "calculate_rsi df 14 =
      Inr (fsub (Fin 100) (fdiv (Fin 100) (fadd (Fin 1) (fdiv (Fin (G / 14)) (Fin (L / 14))))))"
    unfolding G_def L_def g_def l_def
    by (simp only: calculate_rsi_last [OF ne] last_rsi_series)
  then show ?thesis
    using rsi_value_range [OF G0 L0 pos] by simp
qed

lemma last_rolling_extremes:
  assumes "14 \<le> length df"
  shows "last (rolling agg_min 14 (col low df))
           = Fin (Min (low ` set (drop (length df - 14) df)))"
    and "last (rolling agg_max 14 (col high df))
           = Fin (Max (high ` set (drop (length df - 14) df)))"
proof -
  have ne: "df \<noteq> []"
    using assms by auto
  have d: "drop (length df - 14) df \<noteq> []"
    using assms by simp
  show "last (rolling agg_min 14 (col low df))
          = Fin (Min (low ` set (drop (length df - 14) df)))"
    using assms by (simp add: last_rolling_col [OF ne] agg_min_col [OF d])
  show "last (rolling agg_max 14 (col high df))
          = Fin (Max (high ` set (drop (length df - 14) df)))"
    using assms by (simp add: last_rolling_col [OF ne] agg_max_col [OF d])
qed

lemma calculate_stochastic_k_value:
  assumes "14 \<le> length df"
  shows "calculate_stochastic_k df 14 =
     Inr (fdiv (Fin (100 * (close (last df) - Min (low ` set (drop (length df - 14) df)))))
               (Fin (Max (high ` set (drop (length df - 14) df))
                     - Min (low ` set (drop (length df - 14) df)))))"
proof -
  define lowest_low where "lowest_low = rolling agg_min 14 (col low df)"
  define highest_high where "highest_high = rolling agg_max 14 (col high df)"
  define num where "num = map (fmul (Fin 100)) (map2f fsub (col close df) lowest_low)"
  define den where "den = map2f fsub highest_high lowest_low"
  have ne: "df \<noteq> []"
    using assms by auto
  have c: "col close df \<noteq> []" and l: "lowest_low \<noteq> []" and h: "highest_high \<noteq> []"
    using ne by (simp_all add: col_Nil_iff lowest_low_def highest_high_def rolling_Nil_iff)
  have cl: "length (col close df) = length lowest_low"
    and hl: "length highest_high = length lowest_low"
    by (simp_all add: lowest_low_def highest_high_def length_rolling length_col)
  have s: "map2f fsub (col close df) lowest_low \<noteq> []"
    using c l by (cases "col close df"; cases lowest_low) (simp_all add: map2f_def)
  have n: "num \<noteq> []"
    using s by (simp add: num_def)
  have nd: "length num = length den"
    by (simp add: num_def den_def length_map2f cl hl)
  have k: "map2f fdiv num den \<noteq> []"
    using n nd by (cases num; cases den) (simp_all add: map2f_def)
  have "last num = fmul (Fin 100) (fsub (last (col close df)) (last lowest_low))"
    unfolding num_def last_map [OF s] last_map2f [OF c cl] ..
  then have ln: "last num
      = Fin (100 * (close (last df) - Min (low ` set (drop (length df - 14) df))))"
    by (simp add: lowest_low_def last_rolling_extremes(1) [OF assms] last_col [OF ne]
        fsub_def)
  have "last den = fsub (last highest_high) (last lowest_low)"
    unfolding den_def last_map2f [OF h hl] ..
  then have ld: "last den = Fin (Max (high ` set (drop (length df - 14) df))
                                 - Min (low ` set (drop (length df - 14) df)))"
    by (simp add: lowest_low_def highest_high_def last_rolling_extremes [OF assms] fsub_def)
  have "calculate_stochastic_k df 14 = iloc (map2f fdiv num den) (-1)"
    unfolding calculate_stochastic_k_def Let_def num_def den_def lowest_low_def
      highest_high_def ..
  also have "\<dots> = Inr (fdiv (last num) (last den))"
    unfolding iloc_last [OF k] last_map2f [OF n nd] ..
  finally show ?thesis
    unfolding ln ld .
qed

lemma calculate_williams_r_value:
  assumes "14 \<le> length df"
  shows "calculate_williams_r df 14 =
     Inr (fdiv (Fin (- 100 * (Max (high ` set (drop (length df - 14) df)) - close (last df))))
               (Fin (Max (high ` set (drop (length df - 14) df))
                     - Min (low ` set (drop (length df - 14) df)))))"
proof -
  define lowest_low where "lowest_low = rolling agg_min 14 (col low df)"
  define highest_high where "highest_high = rolling agg_max 14 (col high df)"
  define num where "num = map (fmul (Fin (- 100))) (map2f fsub highest_high (col close df))"
  define den where "den = map2f fsub highest_high lowest_low"
  have ne: "df \<noteq> []"
    using assms by auto
  have c: "col close df \<noteq> []" and l: "lowest_low \<noteq> []" and h: "highest_high \<noteq> []"
    using ne by (simp_all add: col_Nil_iff lowest_low_def highest_high_def rolling_Nil_iff)
  have hc: "length highest_high = length (col close df)"
    and hl: "length highest_high = length lowest_low"
    by (simp_all add: lowest_low_def highest_high_def length_rolling length_col)
  have s: "map2f fsub highest_high (col close df) \<noteq> []"
    using h hc c by (cases highest_high; cases "col close df") (simp_all add: map2f_def)
  have n: "num \<noteq> []"
    using s by (simp add: num_def)
  have nd: "length num = length den"
    using hc hl by (simp add: num_def den_def length_map2f)
  have k: "map2f fdiv num den \<noteq> []"
    using n nd by (cases num; cases den) (simp_all add: map2f_def)
  have "last num = fmul (Fin (- 100)) (fsub (last highest_high) (last (col close df)))"
    unfolding num_def last_map [OF s] last_map2f [OF h hc] ..
  then have ln: "last num
      = Fin (- 100 * (Max (high ` set (drop (length df - 14) df)) - close (last df)))"
    by (simp add: highest_high_def last_rolling_extremes(2) [OF assms] last_col [OF ne]
        fsub_def)
  have "last den = fsub (last highest_high) (last lowest_low)"
    unfolding den_def last_map2f [OF h hl] ..
  then have ld: "last den = Fin (Max (high ` set (drop (length df - 14) df))
                                 - Min (low ` set (drop (length df - 14) df)))"
    by (simp add: lowest_low_def highest_high_def last_rolling_extremes [OF assms] fsub_def)
  have "calculate_williams_r df 14 = iloc (map2f fdiv num den) (-1)"
    unfolding calculate_williams_r_def Let_def num_def den_def lowest_low_def
      highest_high_def ..
  also have "\<dots> = Inr (fdiv (last num) (last den))"
    unfolding iloc_last [OF k] last_map2f [OF n nd] ..
  finally show ?thesis
    unfolding ln ld .
qed

lemma stochastic_williams_range:
  assumes len: "14 \<le> length df"
    and lo: "low (last df) \<le> close (last df)" and hi: "close (last df) \<le> high (last df)"
    and ne: "Max (high ` set (drop (length df - 14) df))
               \<noteq> Min (low ` set (drop (length df - 14) df))"
  shows "result_between 0 100 (calculate_stochastic_k df 14)
         \<and> result_between (- 100) 0 (calculate_williams_r df 14)"
proof -
  define hh where "hh = Max (high ` set (drop (length df - 14) df))"
  define ll where "ll = Min (low ` set (drop (length df - 14) df))"
  define c where "c = close (last df)"
  have d: "drop (length df - 14) df \<noteq> []"
    using len by simp
  have "last (drop (length df - 14) df) = last df"
    using len by (intro last_drop) simp
  with d have mem: "last df \<in> set (drop (length df - 14) df)"
    by (metis last_in_set)
  have "ll \<le> low (last df)"
    unfolding ll_def using mem by (intro Min_le) simp_all
  with lo have lc: "ll \<le> c"
    by (simp add: c_def)
  have "high (last df) \<le> hh"
    unfolding hh_def using mem by (intro Max_ge) simp_all
  with hi have ch: "c \<le> hh"
    by (simp add: c_def)
  have pos: "0 < hh - ll"
    using lc ch ne by (simp add: hh_def ll_def)
  have k0: "0 \<le> 100 * (c - ll) / (hh - ll)"
    using lc pos by simp
  have "100 * (c - ll) \<le> 100 * (hh - ll)"
    using ch by simp
  then have k1: "100 * (c - ll) / (hh - ll) \<le> 100"
    using pos by (simp add: pos_divide_le_eq)
  have r0: "- 100 * (hh - c) / (hh - ll) \<le> 0"
    using ch pos by (simp add: divide_nonpos_pos)
  have "- 100 * (hh - ll) \<le> - 100 * (hh - c)"
    using lc by simp
  then have r1: "- 100 \<le> - 100 * (hh - c) / (hh - ll)"
    using pos by (simp add: pos_le_divide_eq)
  have k: "calculate_stochastic_k df 14 = Inr (Fin (100 * (c - ll) / (hh - ll)))"
    using pos by (simp add: calculate_stochastic_k_value [OF len] hh_def ll_def c_def)
  have r: "calculate_williams_r df 14 = Inr (Fin (- 100 * (hh - c) / (hh - ll)))"
    using pos by (simp add: calculate_williams_r_value [OF len] hh_def ll_def c_def)
  show ?thesis
    unfolding k r using k0 k1 r0 r1 by simp
qed

text \<open>
  Claim C6, as the code has it.  All three oscillators are quotients whose denominator can
  be zero on a series with more than 15 bars and closes that are not all equal, and the
  result is then NaN, which lies in no interval.  The relative strength index looks at
  the last 14 price changes only: it is a number in [0, 100] when the last 15 closes are
  not all equal, and NaN when they are.  Stochastic %K and Williams %R divide by the
  spread between the highest high and the lowest low of the last 14 bars and compare the
  last close with these extremes of the high and low columns: they are in range when that
  spread is not zero and the last close lies between the low and the high of its own bar.
  Fourteen bars are enough for these two.

  The statement is for whole-number prices of absolute value at most \<open>2\<^sup>4\<^sup>0\<close>.  The price
  changes, the window sums of gains and losses, the differences from the extremes and
  their products with 100 are then whole numbers that float64 represents, so numerators
  and denominators are computed exactly, and the remaining operations (the two means, the
  quotients, \<open>1 + rs\<close> and \<open>100 - 100 / (1 + rs)\<close>) are correctly rounded and monotone, so
  their float64 results stay within the bounds, which are float64 numbers themselves.
  Without exact numerators a rounded product \<open>100 \<times> (close - low)\<close> can push %K above 100.
\<close>

theorem oscillator_ranges:
  "\<forall>b\<in>set df. high b \<in> \<int> \<and> low b \<in> \<int> \<and> close b \<in> \<int>
       \<and> \<bar>high b\<bar> \<le> 2 ^ 40 \<and> \<bar>low b\<bar> \<le> 2 ^ 40 \<and> \<bar>close b\<bar> \<le> 2 ^ 40 \<Longrightarrow>
     (15 \<le> length df \<and> (\<exists>b\<in>set (drop (length df - 15) df). close b \<noteq> close (last df))
        \<longrightarrow> result_between 0 100 (calculate_rsi df 14))
     \<and> (14 \<le> length df \<and> low (last df) \<le> close (last df) \<and> close (last df) \<le> high (last df)
          \<and> Max (high ` set (drop (length df - 14) df))
               \<noteq> Min (low ` set (drop (length df - 14) df))
        \<longrightarrow> result_between 0 100 (calculate_stochastic_k df 14)
            \<and> result_between (- 100) 0 (calculate_williams_r df 14))"
  using calculate_rsi_range [of df] stochastic_williams_range [of df] by blast

text \<open>The theorem at a series of 15 bars: a bar with close 1 followed by 14 bars with
  low 1, close 2 and high 3.\<close>

theorem oscillator_ranges_witness:
  "result_between 0 100 (calculate_rsi (bar_of 2 0 1 1 # replicate 14 (bar_of 3 1 2 1)) 14)
   \<and> result_between 0 100
       (calculate_stochastic_k (bar_of 2 0 1 1 # replicate 14 (bar_of 3 1 2 1)) 14)
   \<and> result_between (- 100) 0
       (calculate_williams_r (bar_of 2 0 1 1 # replicate 14 (bar_of 3 1 2 1)) 14)"
  using oscillator_ranges [of "bar_of 2 0 1 1 # replicate 14 (bar_of 3 1 2 1)"]
  by (simp add: bar_of_def)

text \<open>A bar with price 1 followed by 15 bars with price 2 (high, low and close): 16 bars
  whose closes are not all equal.  The last 14 price changes are zero, so the mean gain
  and the mean loss are zero and the index is 0 / 0; the last 14 highs and lows are equal,
  so %K and %R are 0 / 0 as well.\<close>

theorem oscillator_nan_counterexample:
  "calculate_rsi (flat_bar 1 1 # replicate 15 (flat_bar 2 1)) 14 = Inr NaN
   \<and> calculate_stochastic_k (flat_bar 1 1 # replicate 15 (flat_bar 2 1)) 14 = Inr NaN
   \<and> calculate_williams_r (flat_bar 1 1 # replicate 15 (flat_bar 2 1)) 14 = Inr NaN"
  by code_simp
end
